theory Spec2Isabelle
  imports Complex_Main "HOL-Library.Sublist" "HOL-Library.Multiset"
begin

section \<open>Strings and numbers of the host language\<close>

text \<open>
  The dashboard is a TypeScript client. Free text (names, titles, e-mail addresses, the
  search query) is a list of code units of an arbitrary type \<open>'u\<close>; for the page these
  are the 16-bit units of a JavaScript string. Strings that the code only compares with
  literals or hands to the date parser (the status, the creation date, route
  parameters) are \<open>string\<close>.

  \<open>String.prototype.toLowerCase\<close> is the platform's Unicode case conversion; it is not
  computed unit by unit and may change the length of a text. It is the parameter
  \<open>toLowerCase\<close> of everything that searches, with no assumption on it.
  \<open>String.prototype.includes\<close> is written out: it looks for a position of the text
  at which the argument starts.
\<close>

type_synonym 'u jstring = "'u list"

fun String_includes :: "'u jstring \<Rightarrow> 'u jstring \<Rightarrow> bool" where
  "String_includes [] q = (q = [])"
| "String_includes (c # s) q = (prefix q (c # s) \<or> String_includes s q)"

text \<open>
  A number is an exact rational, or \<open>None\<close> for NaN. Amounts and totals arrive as JSON
  numbers, which are never NaN, so they are plain \<open>rat\<close>; NaN only arises from
  \<open>new Date(s).getTime()\<close> on a string that is no date. The date parser is the
  platform's: it is the parameter \<open>getTime\<close> of everything that sorts by date.
\<close>

type_synonym number = "rat option"

definition number_sub :: "number \<Rightarrow> number \<Rightarrow> number" where
  "number_sub a b = (case a of None \<Rightarrow> None
                     | Some x \<Rightarrow> (case b of None \<Rightarrow> None | Some y \<Rightarrow> Some (x - y)))"

text \<open>
  \<open>Array.prototype.sort\<close> with a comparator: stable, an element moves behind another
  only where the comparator is strictly positive, and a NaN result counts as \<open>+0\<close>.
\<close>

definition cmp_positive :: "number \<Rightarrow> bool" where
  "cmp_positive v = (case v of None \<Rightarrow> False | Some r \<Rightarrow> 0 < r)"

fun Array_insert :: "('a \<Rightarrow> 'a \<Rightarrow> number) \<Rightarrow> 'a \<Rightarrow> 'a list \<Rightarrow> 'a list" where
  "Array_insert cmp x [] = [x]"
| "Array_insert cmp x (y # ys) =
     (if cmp_positive (cmp x y) then y # Array_insert cmp x ys else x # y # ys)"

definition Array_sort :: "('a \<Rightarrow> 'a \<Rightarrow> number) \<Rightarrow> 'a list \<Rightarrow> 'a list" where
  "Array_sort cmp xs = foldr (Array_insert cmp) xs []"

section \<open>Orders page: data and component state\<close>

text \<open>
  Of the \<open>Order\<close> interface and the entities nested in it, the fields the page reads.
  The optional \<open>property\<close>, \<open>upsell\<close> and \<open>vendor\<close> are \<open>option\<close>s. The status is
  the string the backend sent.
\<close>

record 'u Property =
  property_name :: "'u jstring"

record 'u Upsell =
  upsell_title :: "'u jstring"

record 'u Vendor =
  vendor_name :: "'u jstring"

record 'u Order =
  order_id :: int
  guest_name :: "'u jstring"
  guest_email :: "'u jstring"
  amount :: rat
  status :: string
  created_at :: string
  property :: "'u Property option"
  upsell :: "'u Upsell option"
  vendor :: "'u Vendor option"

datatype sort_key = SortDate | SortAmount | SortStatus

datatype sort_dir = Asc | Desc

datatype view_mode = Card | Table

text \<open>
  The \<open>useState\<close> cells of the component together with the \<open>data\<close> of the orders
  query, which is undefined (\<open>None\<close>) until the fetch has answered.
\<close>

record 'u orders_state =
  orders :: "'u Order list option"
  searchTerm :: "'u jstring"
  statusFilter :: string
  dateFilter :: string
  vendorFilter :: string
  showActionsMenu :: "int option"
  selectedOrders :: "int list"
  viewMode :: view_mode
  sortBy :: sort_key
  sortOrder :: sort_dir
  showFilters :: bool

subsection \<open>Search and sort\<close>

text \<open>
  \<open>matchesSearch\<close>: the five disjuncts of the filter callback. An optional chain on an
  absent entity is undefined, which the disjunction treats as false.
\<close>

definition matchesSearch :: "('u jstring \<Rightarrow> 'u jstring) \<Rightarrow> 'u jstring \<Rightarrow> 'u Order \<Rightarrow> bool" where
  "matchesSearch toLowerCase term order =
     (String_includes (toLowerCase (guest_name order)) (toLowerCase term) \<or>
      String_includes (toLowerCase (guest_email order)) (toLowerCase term) \<or>
      (case upsell order of None \<Rightarrow> False
       | Some u \<Rightarrow> String_includes (toLowerCase (upsell_title u)) (toLowerCase term)) \<or>
      (case property order of None \<Rightarrow> False
       | Some p \<Rightarrow> String_includes (toLowerCase (property_name p)) (toLowerCase term)) \<or>
      (case vendor order of None \<Rightarrow> False
       | Some v \<Rightarrow> String_includes (toLowerCase (vendor_name v)) (toLowerCase term)))"

definition statusOrder :: "string \<rightharpoonup> rat" where
  "statusOrder = [''pending'' \<mapsto> 1, ''confirmed'' \<mapsto> 2, ''fulfilled'' \<mapsto> 3,
                  ''cancelled'' \<mapsto> 4]"

definition status_value :: "string \<Rightarrow> rat" where
  "status_value s = (case statusOrder s of None \<Rightarrow> 0 | Some v \<Rightarrow> v)"

text \<open>
  The comparator of the sort. \<open>parseFloat(a.amount.toString())\<close> gives a number back
  unchanged, so the amount key is the amount.
\<close>

definition aValue :: "(string \<Rightarrow> int option) \<Rightarrow> sort_key \<Rightarrow> 'u Order \<Rightarrow> number" where
  "aValue getTime key a =
     (case key of
        SortDate \<Rightarrow> map_option of_int (getTime (created_at a))
      | SortAmount \<Rightarrow> Some (amount a)
      | SortStatus \<Rightarrow> Some (status_value (status a)))"

definition compare_orders ::
  "(string \<Rightarrow> int option) \<Rightarrow> sort_key \<Rightarrow> sort_dir \<Rightarrow> 'u Order \<Rightarrow> 'u Order \<Rightarrow> number" where
  "compare_orders getTime key dir a b =
     (if dir = Asc then number_sub (aValue getTime key a) (aValue getTime key b)
      else number_sub (aValue getTime key b) (aValue getTime key a))"

definition filteredAndSortedOrders ::
  "('u jstring \<Rightarrow> 'u jstring) \<Rightarrow> (string \<Rightarrow> int option) \<Rightarrow> 'u orders_state \<Rightarrow> 'u Order list" where
  "filteredAndSortedOrders toLowerCase getTime st =
     (case orders st of
        None \<Rightarrow> []
      | Some os \<Rightarrow>
          Array_sort (compare_orders getTime (sortBy st) (sortOrder st))
            (filter (matchesSearch toLowerCase (searchTerm st)) os))"

subsection \<open>The search as the specification words it\<close>




subsection \<open>Example data\<close>

text \<open>
  In the examples a code unit is a Latin-1 character, and lower case is the conversion
  on that range: the capitals \<open>A\<close>..\<open>Z\<close> and the accented capitals 192..222 (but not
  the multiplication sign, 215) get bit 5 set, which adds 32.
\<close>

fun latin1_lower :: "char \<Rightarrow> char" where
  "latin1_lower (Char b0 b1 b2 b3 b4 b5 b6 b7) =
     (let n = (of_char (Char b0 b1 b2 b3 b4 b5 b6 b7) :: nat)
      in if (65 \<le> n \<and> n \<le> 90) \<or> (192 \<le> n \<and> n \<le> 222 \<and> n \<noteq> 215)
         then Char b0 b1 b2 b3 b4 True b6 b7
         else Char b0 b1 b2 b3 b4 b5 b6 b7)"

definition latin1_toLowerCase :: "char jstring \<Rightarrow> char jstring" where
  "latin1_toLowerCase s = map latin1_lower s"

definition order_ann :: "char Order" where
  "order_ann = \<lparr>order_id = 1, guest_name = ''Andr'' @ [CHR 0xE9] @ '' Lee'',
     guest_email = ''andre@example.com'',
     amount = 10, status = ''pending'', created_at = ''2024-05-01'',
     property = Some \<lparr>property_name = ''Villa Sol''\<rparr>,
     upsell = Some \<lparr>upsell_title = ''Private Chef''\<rparr>, vendor = None\<rparr>"

definition order_bob :: "char Order" where
  "order_bob = \<lparr>order_id = 2, guest_name = ''Bob'', guest_email = ''bob@example.com'',
     amount = 5, status = ''fulfilled'', created_at = ''2024-05-02'',
     property = None, upsell = None, vendor = Some \<lparr>vendor_name = ''Taxi Co''\<rparr>\<rparr>"

definition no_dates :: "string \<Rightarrow> int option" where
  "no_dates s = None"

definition orders_page :: "char orders_state" where
  "orders_page = \<lparr>orders = Some [order_ann, order_bob], searchTerm = ''CHEF'',
     statusFilter = '''', dateFilter = '''', vendorFilter = '''', showActionsMenu = None,
     selectedOrders = [], viewMode = Card, sortBy = SortDate, sortOrder = Desc,
     showFilters = False\<rparr>"



text \<open>
  A page that lists the fulfilled order before the pending one and sorts by status.
\<close>

definition orders_by_status :: "sort_dir \<Rightarrow> char orders_state" where
  "orders_by_status dir =
     orders_page\<lparr>orders := Some [order_bob, order_ann], searchTerm := ''EXAMPLE.COM'',
       sortBy := SortStatus, sortOrder := dir\<rparr>"

subsection \<open>The status order of the specification\<close>

definition status_canon :: "string list" where
  "status_canon = [''pending'', ''confirmed'', ''fulfilled'', ''cancelled'']"

section \<open>Orders page: statistics, selection and status changes\<close>

text \<open>
  \<open>stats\<close> reads the fetched collection only. The revenue is the left fold of the
  \<open>reduce\<close> call, from 0.
\<close>

record order_stats =
  total :: nat
  revenue :: rat
  pending :: nat
  confirmed :: nat
  fulfilled :: nat
  cancelled :: nat

definition stats :: "'u orders_state \<Rightarrow> order_stats" where
  "stats st =
     (case orders st of
        None \<Rightarrow> \<lparr>total = 0, revenue = 0, pending = 0, confirmed = 0, fulfilled = 0,
                 cancelled = 0\<rparr>
      | Some os \<Rightarrow>
          \<lparr>total = length os,
           revenue = foldl (\<lambda>sum order. sum + amount order) 0 os,
           pending = length (filter (\<lambda>order. status order = ''pending'') os),
           confirmed = length (filter (\<lambda>order. status order = ''confirmed'') os),
           fulfilled = length (filter (\<lambda>order. status order = ''fulfilled'') os),
           cancelled = length (filter (\<lambda>order. status order = ''cancelled'') os)\<rparr>)"

text \<open>
  What the page does to the outside: requests to the backend, invalidation of cached
  queries and toasts. The backend is the parameter \<open>api\<close>, which says for each request
  whether its promise resolves or rejects.
\<close>

datatype request =
    PutOrderStatus int string
  | PutBulkUpdate "int list" string

datatype response = Resolved | Rejected

datatype toast =
    OrderStatusUpdated
  | FailedToUpdateOrderStatus
  | OrdersUpdated nat
  | FailedToUpdateOrders

datatype effect = Request request | InvalidateQueries string | Toast toast

definition handleSelectOrder :: "int \<Rightarrow> 'u orders_state \<Rightarrow> 'u orders_state" where
  "handleSelectOrder orderId st =
     st\<lparr>selectedOrders :=
          (if orderId \<in> set (selectedOrders st)
           then filter (\<lambda>i. i \<noteq> orderId) (selectedOrders st)
           else selectedOrders st @ [orderId])\<rparr>"

definition handleSelectAll ::
  "('u jstring \<Rightarrow> 'u jstring) \<Rightarrow> (string \<Rightarrow> int option) \<Rightarrow> 'u orders_state \<Rightarrow> 'u orders_state" where
  "handleSelectAll toLowerCase getTime st =
     (if length (selectedOrders st) = length (filteredAndSortedOrders toLowerCase getTime st)
      then st\<lparr>selectedOrders := []\<rparr>
      else st\<lparr>selectedOrders := map order_id (filteredAndSortedOrders toLowerCase getTime st)\<rparr>)"

text \<open>
  \<open>mutate\<close> of a mutation sends the request, then runs \<open>onSuccess\<close> when the promise
  resolves and \<open>onError\<close> when it rejects.
\<close>

definition updateStatusMutation_mutate ::
  "(request \<Rightarrow> response) \<Rightarrow> int \<Rightarrow> string \<Rightarrow> 'u orders_state
     \<Rightarrow> effect list \<times> 'u orders_state" where
  "updateStatusMutation_mutate api i s st =
     (case api (PutOrderStatus i s) of
        Resolved \<Rightarrow>
          ([Request (PutOrderStatus i s), InvalidateQueries ''orders'', Toast OrderStatusUpdated],
           st\<lparr>showActionsMenu := None\<rparr>)
      | Rejected \<Rightarrow>
          ([Request (PutOrderStatus i s), Toast FailedToUpdateOrderStatus], st))"

definition bulkUpdateMutation_mutate ::
  "(request \<Rightarrow> response) \<Rightarrow> int list \<Rightarrow> string \<Rightarrow> 'u orders_state
     \<Rightarrow> effect list \<times> 'u orders_state" where
  "bulkUpdateMutation_mutate api ids s st =
     (case api (PutBulkUpdate ids s) of
        Resolved \<Rightarrow>
          ([Request (PutBulkUpdate ids s), InvalidateQueries ''orders'',
            Toast (OrdersUpdated (length (selectedOrders st)))],
           st\<lparr>selectedOrders := []\<rparr>)
      | Rejected \<Rightarrow>
          ([Request (PutBulkUpdate ids s), Toast FailedToUpdateOrders], st))"

definition handleBulkAction ::
  "(request \<Rightarrow> response) \<Rightarrow> string \<Rightarrow> 'u orders_state
     \<Rightarrow> effect list \<times> 'u orders_state" where
  "handleBulkAction api s st =
     (if length (selectedOrders st) = 0 then ([], st)
      else bulkUpdateMutation_mutate api (selectedOrders st) s st)"

definition requests :: "effect list \<Rightarrow> request list" where
  "requests es = concat (map (\<lambda>e. case e of Request r \<Rightarrow> [r] | _ \<Rightarrow> []) es)"

text \<open>
  The buttons on offer. The actions menu of an order (the same in the card and in the
  table view) shows a button per condition on the status of the order; each is given by
  the status its click asks for. The bulk bar is rendered when the selection is not
  empty, with three buttons.
\<close>

definition menu_actions :: "'u Order \<Rightarrow> string list" where
  "menu_actions order =
     (if status order = ''pending'' then [''confirmed''] else [])
     @ (if status order = ''confirmed'' then [''fulfilled''] else [])
     @ (if status order = ''pending'' \<or> status order = ''confirmed'' then [''cancelled'']
        else [])"

definition bulk_actions :: "'u orders_state \<Rightarrow> string list" where
  "bulk_actions st =
     (if length (selectedOrders st) > 0 then [''confirmed'', ''fulfilled'', ''cancelled'']
      else [])"

definition always_resolves :: "request \<Rightarrow> response" where
  "always_resolves r = Resolved"

definition always_rejects :: "request \<Rightarrow> response" where
  "always_rejects r = Rejected"

definition bob_selected :: "char orders_state" where
  "bob_selected = handleSelectOrder 2 (orders_page\<lparr>searchTerm := '''', viewMode := Table\<rparr>)"

section \<open>Analytics page: the revenue chart\<close>

text \<open>
  An entry of the revenue series. \<open>slice(-n)\<close> keeps the last \<open>n\<close> elements, or all
  of them when there are fewer. \<open>Math.max\<close> is only called on a non-empty list; the
  other branch of the conditional gives 0.
\<close>

record RevenueData =
  date :: string
  day_total :: rat

definition Array_slice_last :: "nat \<Rightarrow> 'a list \<Rightarrow> 'a list" where
  "Array_slice_last n xs = drop (length xs - n) xs"

definition compare_dates :: "(string \<Rightarrow> int option) \<Rightarrow> RevenueData \<Rightarrow> RevenueData \<Rightarrow> number" where
  "compare_dates getTime a b =
     number_sub (map_option of_int (getTime (date a))) (map_option of_int (getTime (date b)))"

definition recentRevenueData ::
  "(string \<Rightarrow> int option) \<Rightarrow> RevenueData list option \<Rightarrow> RevenueData list" where
  "recentRevenueData getTime revenueData =
     (case revenueData of
        None \<Rightarrow> []
      | Some series \<Rightarrow>
          Array_sort (compare_dates getTime)
            (Array_slice_last 5 (filter (\<lambda>item. day_total item > 0) series)))"

definition recentMaxRevenue :: "RevenueData list \<Rightarrow> rat" where
  "recentMaxRevenue recent =
     (case map day_total recent of [] \<Rightarrow> 0 | t # ts \<Rightarrow> fold max ts t)"

definition height :: "RevenueData list \<Rightarrow> RevenueData \<Rightarrow> rat" where
  "height recent item =
     (if recentMaxRevenue recent > 0 then (day_total item / recentMaxRevenue recent) * 100
      else 0)"

text \<open>The bars of the chart: one per entry of the trimmed series, with its height.\<close>

definition chart_bars :: "(string \<Rightarrow> int option) \<Rightarrow> RevenueData list option \<Rightarrow> (RevenueData \<times> rat) list" where
  "chart_bars getTime revenueData =
     (let recent = recentRevenueData getTime revenueData
      in map (\<lambda>item. (item, height recent item)) recent)"

definition may_days :: "string \<Rightarrow> int option" where
  "may_days = [''2024-05-01'' \<mapsto> 1, ''2024-05-02'' \<mapsto> 2, ''2024-05-03'' \<mapsto> 3,
               ''2024-05-04'' \<mapsto> 4, ''2024-05-05'' \<mapsto> 5, ''2024-05-06'' \<mapsto> 6,
               ''2024-05-07'' \<mapsto> 7]"

definition may_revenue :: "RevenueData list" where
  "may_revenue =
     [\<lparr>date = ''2024-05-07'', day_total = 70\<rparr>, \<lparr>date = ''2024-05-01'', day_total = 10\<rparr>,
      \<lparr>date = ''2024-05-02'', day_total = 0\<rparr>, \<lparr>date = ''2024-05-06'', day_total = 60\<rparr>,
      \<lparr>date = ''2024-05-03'', day_total = 30\<rparr>, \<lparr>date = ''2024-05-05'', day_total = 200\<rparr>,
      \<lparr>date = ''2024-05-04'', day_total = 40\<rparr>]"

section \<open>Property and upsell forms: submission\<close>

text \<open>
  The form data of the two image-bearing forms. A field with \<open>?\<close> in the interface is
  an \<open>option\<close>. The availability rules of an upsell are opaque to the client: their
  type is a parameter.
\<close>

record File =
  file_name :: string
  file_type :: string
  file_size :: nat

datatype payment_processor = Stripe | Wise

datatype payout_schedule = Manual | Weekly | Monthly

record WiseAccountDetails =
  bank_name :: "string option"
  account_number :: "string option"
  routing_number :: "string option"
  swift_code :: "string option"
  account_holder_name :: "string option"
  instructions :: "string option"

record PropertyFormData =
  name :: string
  description :: string
  instagram_url :: string
  language :: string
  currency :: string
  tags :: "string list"
  hero_image_url :: "string option"
  payment_processor :: payment_processor
  payout_schedule :: payout_schedule
  wise_account_details :: "WiseAccountDetails option"

record 'rules UpsellFormData =
  property_id :: int
  primary_vendor_id :: int
  secondary_vendor_id :: "int option"
  title :: string
  upsell_description :: string
  price :: rat
  category :: string
  image_url :: "string option"
  availability_rules :: 'rules
  is_active :: bool
  sort_order :: int

text \<open>
  What a submission does to the outside, in order: the upload of the image, the create
  or update request with its payload, the toast of the \<open>catch\<close> block. The upload
  endpoint is the parameter \<open>upload\<close>: it answers with the URL of the stored image or
  rejects.
\<close>

datatype upload_response = UploadResolved string | UploadRejected

datatype 'payload form_effect =
    PostUploadImage File
  | PostCreate 'payload
  | PutUpdate string 'payload
  | ToastError string

text \<open>
  \<open>isEditing\<close> is \<open>Boolean(id)\<close> of the route parameter: a missing or empty id means
  create, any other id means update of that id.
\<close>

definition submit_mutation :: "string option \<Rightarrow> 'payload \<Rightarrow> 'payload form_effect" where
  "submit_mutation route_id submitData =
     (case route_id of
        None \<Rightarrow> PostCreate submitData
      | Some i \<Rightarrow> if i = [] then PostCreate submitData else PutUpdate i submitData)"

definition PropertyForm_onSubmit ::
  "(File \<Rightarrow> upload_response) \<Rightarrow> string option \<Rightarrow> File option \<Rightarrow> PropertyFormData
     \<Rightarrow> PropertyFormData form_effect list" where
  "PropertyForm_onSubmit upload route_id selectedFile data =
     (case selectedFile of
        None \<Rightarrow>
          (let imageUrl = hero_image_url data
           in [submit_mutation route_id (data\<lparr>hero_image_url := imageUrl\<rparr>)])
      | Some file \<Rightarrow>
          (case upload file of
             UploadRejected \<Rightarrow> [PostUploadImage file, ToastError ''Failed to upload image'']
           | UploadResolved url \<Rightarrow>
               (let imageUrl = Some url
                in [PostUploadImage file,
                    submit_mutation route_id (data\<lparr>hero_image_url := imageUrl\<rparr>)])))"

definition UpsellForm_onSubmit ::
  "(File \<Rightarrow> upload_response) \<Rightarrow> string option \<Rightarrow> File option \<Rightarrow> 'rules UpsellFormData
     \<Rightarrow> 'rules UpsellFormData form_effect list" where
  "UpsellForm_onSubmit upload route_id selectedFile data =
     (case selectedFile of
        None \<Rightarrow>
          (let imageUrl = image_url data
           in [submit_mutation route_id (data\<lparr>image_url := imageUrl\<rparr>)])
      | Some file \<Rightarrow>
          (case upload file of
             UploadRejected \<Rightarrow> [PostUploadImage file, ToastError ''Failed to upload image'']
           | UploadResolved url \<Rightarrow>
               (let imageUrl = Some url
                in [PostUploadImage file,
                    submit_mutation route_id (data\<lparr>image_url := imageUrl\<rparr>)])))"

definition villa_photo :: File where
  "villa_photo = \<lparr>file_name = ''villa.png'', file_type = ''image/png'', file_size = 2048\<rparr>"

definition cdn_upload :: "File \<Rightarrow> upload_response" where
  "cdn_upload file = UploadResolved (''https://cdn.example/'' @ file_name file)"

definition villa_form :: PropertyFormData where
  "villa_form = \<lparr>name = ''Villa Sol'', description = ''Sea view'', instagram_url = '''',
     language = ''en'', currency = ''USD'', tags = [''pool''],
     hero_image_url = Some ''https://cdn.example/old.png'', payment_processor = Stripe,
     payout_schedule = Manual, wise_account_details = None\<rparr>"

definition chef_form :: "unit UpsellFormData" where
  "chef_form = \<lparr>property_id = 1, primary_vendor_id = 3, secondary_vendor_id = None,
     title = ''Private Chef'', upsell_description = ''Dinner'', price = 120,
     category = ''chef'', image_url = Some '''', availability_rules = (), is_active = True,
     sort_order = 0\<rparr>"

section \<open>Session: initialisation\<close>

text \<open>
  The state of the auth provider: the current user, the token in memory, the loading
  flag, and the persistent storage of the browser as a map from keys to values. The
  outcome of the "who am I" request is the parameter \<open>me\<close>.
\<close>

datatype role = Admin | Owner

record User =
  user_id :: int
  user_name :: string
  email :: string
  role :: role
  stripe_account_id :: "string option"
  user_is_active :: bool

record auth_state =
  user :: "User option"
  token :: "string option"
  isLoading :: bool
  localStorage :: "string \<rightharpoonup> string"

datatype me_response = MeResolved User | MeRejected

datatype login_response = LoginResolved User string | LoginRejected "string option"

datatype auth_effect = GetMe | PostLogin string string | Throw string

definition AuthProvider_initial :: "(string \<rightharpoonup> string) \<Rightarrow> auth_state" where
  "AuthProvider_initial storage =
     \<lparr>user = None, token = storage ''token'', isLoading = True, localStorage = storage\<rparr>"

text \<open>
  \<open>initAuth\<close>: a token that is null or the empty string is falsy and skips the request.
  The \<open>catch\<close> block takes every failure of the request; nothing is thrown or shown.
\<close>

definition initAuth :: "me_response \<Rightarrow> auth_state \<Rightarrow> auth_effect list \<times> auth_state" where
  "initAuth me st =
     (let (effects, st') =
        (case token st of
           None \<Rightarrow> ([], st)
         | Some t \<Rightarrow>
             if t = [] then ([], st)
             else (case me of
                     MeResolved u \<Rightarrow> ([GetMe], st\<lparr>user := Some u\<rparr>)
                   | MeRejected \<Rightarrow>
                       ([GetMe],
                        st\<lparr>localStorage := (localStorage st)(''token'' := None),
                           token := None\<rparr>)))
      in (effects, st'\<lparr>isLoading := False\<rparr>))"

definition login ::
  "login_response \<Rightarrow> string \<Rightarrow> string \<Rightarrow> auth_state \<Rightarrow> auth_effect list \<times> auth_state" where
  "login response mail password st =
     (case response of
        LoginResolved userData access_token \<Rightarrow>
          ([PostLogin mail password],
           st\<lparr>localStorage := (localStorage st)(''token'' \<mapsto> access_token),
              token := Some access_token, user := Some userData\<rparr>)
      | LoginRejected message \<Rightarrow>
          ([PostLogin mail password,
            Throw (case message of None \<Rightarrow> ''Login failed''
                   | Some m \<Rightarrow> if m = [] then ''Login failed'' else m)],
           st))"

definition logout :: "auth_state \<Rightarrow> auth_state" where
  "logout st =
     st\<lparr>localStorage := (localStorage st)(''token'' := None), token := None, user := None\<rparr>"

definition ann_user :: User where
  "ann_user = \<lparr>user_id = 7, user_name = ''Ann'', email = ''ann@example.com'', role = Owner,
     stripe_account_id = None, user_is_active = True\<rparr>"

definition stored_session :: auth_state where
  "stored_session = AuthProvider_initial [''token'' \<mapsto> ''abc123'']"

section \<open>Properties of the built-ins\<close>


lemma mset_Array_insert: "mset (Array_insert cmp x ys) = add_mset x (mset ys)"
  by (induction ys) simp_all

lemma mset_Array_sort: "mset (Array_sort cmp xs) = mset xs"
  unfolding Array_sort_def by (induction xs) (simp_all add: mset_Array_insert)

lemma set_Array_sort: "set (Array_sort cmp xs) = set xs"
  using mset_Array_sort [of cmp xs] by (metis set_mset_mset)

lemma length_Array_sort: "length (Array_sort cmp xs) = length xs"
  using mset_Array_sort [of cmp xs] by (metis size_mset)

lemma set_Array_insert: "set (Array_insert cmp x ys) = insert x (set ys)"
  using mset_Array_insert [of cmp x ys] by (metis set_mset_add_mset_insert set_mset_mset)

text \<open>
  The sort orders a list by any relation that is transitive and agrees with the sign of
  the comparator on a set that holds the elements of the list.
\<close>

lemma sorted_wrt_Array_insert_on:
  assumes trans: "\<And>a b c. a \<in> A \<Longrightarrow> b \<in> A \<Longrightarrow> c \<in> A \<Longrightarrow> R a b \<Longrightarrow> R b c \<Longrightarrow> R a c"
    and le: "\<And>a b. a \<in> A \<Longrightarrow> b \<in> A \<Longrightarrow> \<not> cmp_positive (cmp a b) \<Longrightarrow> R a b"
    and gt: "\<And>a b. a \<in> A \<Longrightarrow> b \<in> A \<Longrightarrow> cmp_positive (cmp a b) \<Longrightarrow> R b a"
    and x: "x \<in> A"
    and ys: "set ys \<subseteq> A" "sorted_wrt R ys"
  shows "sorted_wrt R (Array_insert cmp x ys)"
  using ys
proof (induction ys)
  case Nil
  then show ?case by simp
next
  case (Cons y ys)
  have y: "y \<in> A" and sub: "set ys \<subseteq> A" using Cons.prems(1) by simp_all
  have tail: "sorted_wrt R ys" and head: "\<And>z. z \<in> set ys \<Longrightarrow> R y z"
    using Cons.prems(2) by simp_all
  show ?case
  proof (cases "cmp_positive (cmp x y)")
    case True
    have "R y x" using gt [OF x y True] .
    then have "R y z" if "z \<in> set (Array_insert cmp x ys)" for z
      using that head by (auto simp: set_Array_insert)
    moreover have "sorted_wrt R (Array_insert cmp x ys)"
      using Cons.IH [OF sub tail] .
    ultimately show ?thesis using True by simp
  next
    case False
    have xy: "R x y" using le [OF x y False] .
    have "R x z" if "z \<in> set ys" for z
      using trans [OF x y _ xy head [OF that]] that sub by blast
    then show ?thesis using False xy Cons.prems(2) by simp
  qed
qed

lemma sorted_wrt_Array_sort_on:
  assumes "\<And>a b c. a \<in> A \<Longrightarrow> b \<in> A \<Longrightarrow> c \<in> A \<Longrightarrow> R a b \<Longrightarrow> R b c \<Longrightarrow> R a c"
    and "\<And>a b. a \<in> A \<Longrightarrow> b \<in> A \<Longrightarrow> \<not> cmp_positive (cmp a b) \<Longrightarrow> R a b"
    and "\<And>a b. a \<in> A \<Longrightarrow> b \<in> A \<Longrightarrow> cmp_positive (cmp a b) \<Longrightarrow> R b a"
    and "set xs \<subseteq> A"
  shows "sorted_wrt R (Array_sort cmp xs)"
  using assms(4)
proof (induction xs)
  case Nil
  then show ?case by (simp add: Array_sort_def)
next
  case (Cons x xs)
  have "sorted_wrt R (Array_insert cmp x (Array_sort cmp xs))"
  proof (rule sorted_wrt_Array_insert_on [where A = A and R = R])
    show "x \<in> A" using Cons.prems by simp
    show "set (Array_sort cmp xs) \<subseteq> A" using Cons.prems by (simp add: set_Array_sort)
    show "sorted_wrt R (Array_sort cmp xs)" using Cons by simp
  qed (use assms(1-3) in blast)+
  then show ?case by (simp add: Array_sort_def)
qed

lemma sorted_wrt_Array_sort:
  assumes "\<And>a b c. R a b \<Longrightarrow> R b c \<Longrightarrow> R a c"
    and "\<And>a b. \<not> cmp_positive (cmp a b) \<Longrightarrow> R a b"
    and "\<And>a b. cmp_positive (cmp a b) \<Longrightarrow> R b a"
  shows "sorted_wrt R (Array_sort cmp xs)"
  by (rule sorted_wrt_Array_sort_on [where A = UNIV]) (use assms in blast)+




section \<open>Orders page: search\<close>



section \<open>Orders page: sort by status\<close>

lemma cmp_positive_status_asc:
  "cmp_positive (compare_orders getTime SortStatus Asc a b)
   \<longleftrightarrow> status_value (status b) < status_value (status a)"
  by (simp add: compare_orders_def aValue_def number_sub_def cmp_positive_def)

lemma cmp_positive_status_desc:
  "cmp_positive (compare_orders getTime SortStatus Desc a b)
   \<longleftrightarrow> status_value (status a) < status_value (status b)"
  by (simp add: compare_orders_def aValue_def number_sub_def cmp_positive_def)

lemma status_value_canon: "map status_value status_canon = [1, 2, 3, 4]"
  by (simp add: status_canon_def status_value_def statusOrder_def)

lemma inj_on_status_value: "inj_on status_value (set status_canon)"
proof -
  have "distinct (map status_value status_canon)"
    by (simp add: status_value_canon)
  then show ?thesis by (simp add: distinct_map)
qed

lemma sorted_by_rank_unique:
  assumes sub: "set zs \<subseteq> set status_canon"
    and dist: "distinct zs"
    and sorted: "sorted (map status_value zs)"
  shows "zs = filter (\<lambda>s. s \<in> set zs) status_canon"
proof -
  let ?F = "filter (\<lambda>s. s \<in> set zs) status_canon"
  have inj_zs: "inj_on status_value (set zs)"
    using inj_on_status_value sub by (rule inj_on_subset)
  have setF: "set ?F = set zs" using sub by auto
  have "sorted (map status_value status_canon)" by (simp add: status_value_canon)
  then have sF: "sorted (map status_value ?F)" by (rule sorted_filter)
  have "distinct status_canon" by (simp add: status_canon_def)
  then have "distinct ?F" by simp
  moreover have "inj_on status_value (set ?F)" using inj_zs by (simp only: setF)
  ultimately have dF: "distinct (map status_value ?F)" by (simp only: distinct_map)
  have dz: "distinct (map status_value zs)"
    using inj_zs dist by (simp add: distinct_map)
  have "set (map status_value zs) = set (map status_value ?F)" by (simp only: set_map setF)
  then have "map status_value zs = map status_value ?F"
    using sorted sF dz dF by (metis sorted_distinct_set_unique)
  moreover have "inj_on status_value (set zs \<union> set ?F)" using inj_zs by (simp only: setF Un_absorb)
  ultimately show ?thesis by (simp only: inj_on_map_eq_map)
qed

lemma Array_sort_by_status:
  fixes xs :: "'u Order list"
  assumes "set (map status xs) \<subseteq> {''pending'', ''confirmed'', ''fulfilled'', ''cancelled''}"
    and "distinct (map status xs)"
  shows "map status (Array_sort (compare_orders getTime SortStatus Asc) xs)
           = filter (\<lambda>s. s \<in> set (map status xs))
               [''pending'', ''confirmed'', ''fulfilled'', ''cancelled'']
       \<and> map status (Array_sort (compare_orders getTime SortStatus Desc) xs)
           = rev (filter (\<lambda>s. s \<in> set (map status xs))
               [''pending'', ''confirmed'', ''fulfilled'', ''cancelled''])"
proof -
  let ?asc = "map status (Array_sort (compare_orders getTime SortStatus Asc) xs)"
  let ?desc = "map status (Array_sort (compare_orders getTime SortStatus Desc) xs)"
  have sub: "set (map status xs) \<subseteq> set status_canon"
    using assms(1) by (simp add: status_canon_def)
  have m_asc: "mset ?asc = mset (map status xs)" by (simp add: mset_Array_sort)
  have m_desc: "mset ?desc = mset (map status xs)" by (simp add: mset_Array_sort)
  have set_asc: "set ?asc = set (map status xs)" using m_asc by (rule mset_eq_setD)
  have set_desc: "set ?desc = set (map status xs)" using m_desc by (rule mset_eq_setD)
  have d_asc: "distinct ?asc" using m_asc assms(2) by (metis mset_eq_imp_distinct_iff)
  have d_desc: "distinct ?desc" using m_desc assms(2) by (metis mset_eq_imp_distinct_iff)
  have "sorted_wrt (\<lambda>a b. status_value (status a) \<le> status_value (status b))
          (Array_sort (compare_orders getTime SortStatus Asc) xs)"
    by (rule sorted_wrt_Array_sort) (auto simp: cmp_positive_status_asc)
  then have s_asc: "sorted (map status_value ?asc)"
    by (simp add: sorted_wrt_map)
  have "sorted_wrt (\<lambda>a b. status_value (status b) \<le> status_value (status a))
          (Array_sort (compare_orders getTime SortStatus Desc) xs)"
    by (rule sorted_wrt_Array_sort) (auto simp: cmp_positive_status_desc)
  then have s_desc: "sorted (map status_value (rev ?desc))"
    by (simp add: sorted_wrt_map sorted_wrt_rev rev_map [symmetric])
  have "?asc = filter (\<lambda>s. s \<in> set ?asc) status_canon"
    using sub d_asc s_asc by (intro sorted_by_rank_unique) (simp_all only: set_asc)
  moreover have "rev ?desc = filter (\<lambda>s. s \<in> set (rev ?desc)) status_canon"
    using sub d_desc s_desc by (intro sorted_by_rank_unique) (simp_all only: set_rev set_desc distinct_rev)
  then have "?desc = rev (filter (\<lambda>s. s \<in> set ?desc) status_canon)"
    by (metis rev_rev_ident set_rev)
  ultimately show ?thesis
    by (simp only: set_asc set_desc status_canon_def)
qed


text \<open>
  Claim C2. On a page that sorts by status, for every list of orders that reaches the
  sort (the fetched orders that pass the search) whose statuses are among pending,
  confirmed, fulfilled and cancelled and pairwise different, the displayed list has the
  statuses in the order pending, confirmed, fulfilled, cancelled (those that occur) when
  the direction is ascending, and in exactly the reverse order when it is descending,
  whatever the order in which the orders were fetched.
\<close>

theorem sort_by_status_fixed_order:
  assumes "orders st = Some os"
    and "sortBy st = SortStatus"
    and "xs = filter (matchesSearch toLowerCase (searchTerm st)) os"
    and "set (map status xs) \<subseteq> {''pending'', ''confirmed'', ''fulfilled'', ''cancelled''}"
    and "distinct (map status xs)"
  shows "(sortOrder st = Asc \<longrightarrow>
            map status (filteredAndSortedOrders toLowerCase getTime st)
              = filter (\<lambda>s. s \<in> set (map status xs))
                  [''pending'', ''confirmed'', ''fulfilled'', ''cancelled''])
       \<and> (sortOrder st = Desc \<longrightarrow>
            map status (filteredAndSortedOrders toLowerCase getTime st)
              = rev (filter (\<lambda>s. s \<in> set (map status xs))
                  [''pending'', ''confirmed'', ''fulfilled'', ''cancelled'']))"
proof -
  have shown: "filteredAndSortedOrders toLowerCase getTime st
               = Array_sort (compare_orders getTime SortStatus (sortOrder st)) xs"
    using assms(1-3) by (simp add: filteredAndSortedOrders_def)
  show ?thesis
    unfolding shown using Array_sort_by_status [OF assms(4,5), of getTime] by auto
qed

text \<open>
  A fulfilled order fetched before a pending one; the query is in the e-mail address of
  both.
\<close>

theorem sort_by_status_fixed_order_witness:
  "orders (orders_by_status Asc) = Some [order_bob, order_ann]
   \<and> map status [order_bob, order_ann] = [''fulfilled'', ''pending'']
   \<and> map status (filteredAndSortedOrders latin1_toLowerCase no_dates (orders_by_status Asc))
       = [''pending'', ''fulfilled'']
   \<and> map status (filteredAndSortedOrders latin1_toLowerCase no_dates (orders_by_status Desc))
       = [''fulfilled'', ''pending'']"
proof -
  let ?xs = "[order_bob, order_ann]"
  have m: "map status ?xs = [''fulfilled'', ''pending'']"
    by (simp add: order_ann_def order_bob_def)
  have fetched: "orders (orders_by_status dir) = Some ?xs" for dir
    by (simp add: orders_by_status_def)
  have key: "sortBy (orders_by_status dir) = SortStatus" for dir
    by (simp add: orders_by_status_def)
  have dir: "sortOrder (orders_by_status dir) = dir" for dir
    by (simp add: orders_by_status_def)
  have query: "searchTerm (orders_by_status dir) = ''EXAMPLE.COM''" for dir
    by (simp add: orders_by_status_def)
  have pass: "filter (matchesSearch latin1_toLowerCase ''EXAMPLE.COM'') ?xs = ?xs"
    by code_simp
  have xs: "?xs = filter (matchesSearch latin1_toLowerCase (searchTerm (orders_by_status dir))) ?xs"
    for dir
    by (simp only: pass query)
  have h1: "set (map status ?xs) \<subseteq> {''pending'', ''confirmed'', ''fulfilled'', ''cancelled''}"
    unfolding m by simp
  have h2: "distinct (map status ?xs)" unfolding m by simp
  have "map status (filteredAndSortedOrders latin1_toLowerCase no_dates (orders_by_status Asc))
       = filter (\<lambda>s. s \<in> set (map status ?xs))
           [''pending'', ''confirmed'', ''fulfilled'', ''cancelled'']"
    using sort_by_status_fixed_order [OF fetched key xs h1 h2, of Asc no_dates]
    by (simp only: dir sort_dir.simps simp_thms)
  then have asc: "map status (filteredAndSortedOrders latin1_toLowerCase no_dates (orders_by_status Asc))
       = [''pending'', ''fulfilled'']"
    unfolding m by simp
  have "map status (filteredAndSortedOrders latin1_toLowerCase no_dates (orders_by_status Desc))
       = rev (filter (\<lambda>s. s \<in> set (map status ?xs))
           [''pending'', ''confirmed'', ''fulfilled'', ''cancelled''])"
    using sort_by_status_fixed_order [OF fetched key xs h1 h2, of Desc no_dates]
    by (simp only: dir sort_dir.simps simp_thms)
  then have desc: "map status (filteredAndSortedOrders latin1_toLowerCase no_dates (orders_by_status Desc))
       = [''fulfilled'', ''pending'']"
    unfolding m by simp
  show ?thesis using fetched m asc desc by blast
qed

section \<open>Orders page: selection\<close>

text \<open>
  Claim C3. In every state, "Select all" leaves the selection either empty or equal to
  the ids of the displayed (search-narrowed) list, in the order displayed; every id it
  selects is the id of a fetched order that matches the search.
\<close>

theorem select_all_within_filtered:
  "(selectedOrders (handleSelectAll toLowerCase getTime st) = []
      \<or> selectedOrders (handleSelectAll toLowerCase getTime st)
          = map order_id (filteredAndSortedOrders toLowerCase getTime st))
   \<and> (\<forall>i \<in> set (selectedOrders (handleSelectAll toLowerCase getTime st)).
         \<exists>order \<in> set (case orders st of None \<Rightarrow> [] | Some os \<Rightarrow> os).
           order_id order = i \<and> matchesSearch toLowerCase (searchTerm st) order)"
proof -
  let ?shown = "filteredAndSortedOrders toLowerCase getTime st"
  let ?fetched = "case orders st of None \<Rightarrow> [] | Some os \<Rightarrow> os"
  have shown: "x \<in> set ?fetched \<and> matchesSearch toLowerCase (searchTerm st) x" if "x \<in> set ?shown" for x
    using that by (cases "orders st") (simp_all add: filteredAndSortedOrders_def set_Array_sort)
  show ?thesis
  proof (cases "length (selectedOrders st) = length ?shown")
    case True
    then show ?thesis by (simp add: handleSelectAll_def)
  next
    case False
    then have sel: "selectedOrders (handleSelectAll toLowerCase getTime st) = map order_id ?shown"
      by (simp add: handleSelectAll_def)
    have "\<exists>order \<in> set ?fetched. order_id order = i \<and> matchesSearch toLowerCase (searchTerm st) order"
      if "i \<in> set (map order_id ?shown)" for i
    proof -
      from that obtain x where "x \<in> set ?shown" and "order_id x = i" by auto
      then show ?thesis using shown by blast
    qed
    then show ?thesis unfolding sel by blast
  qed
qed

text \<open>With the query \<open>CHEF\<close> only the first of the two fetched orders is selected.\<close>

theorem select_all_within_filtered_witness:
  "selectedOrders (handleSelectAll latin1_toLowerCase no_dates orders_page) = [1]
   \<and> (\<exists>order \<in> set [order_ann, order_bob].
         order_id order = 1 \<and> matchesSearch latin1_toLowerCase ''CHEF'' order)"
proof -
  have sel: "selectedOrders (handleSelectAll latin1_toLowerCase no_dates orders_page) = [1]"
    by code_simp
  have fetched: "orders orders_page = Some [order_ann, order_bob]"
    by (simp add: orders_page_def)
  have query: "searchTerm orders_page = ''CHEF''"
    by (simp add: orders_page_def)
  have "\<forall>i \<in> set (selectedOrders (handleSelectAll latin1_toLowerCase no_dates orders_page)).
         \<exists>order \<in> set (case orders orders_page of None \<Rightarrow> [] | Some os \<Rightarrow> os).
           order_id order = i \<and> matchesSearch latin1_toLowerCase (searchTerm orders_page) order"
    using select_all_within_filtered [of latin1_toLowerCase no_dates orders_page] by (rule conjunct2)
  then have "\<exists>order \<in> set [order_ann, order_bob].
         order_id order = 1 \<and> matchesSearch latin1_toLowerCase ''CHEF'' order"
    by (simp add: sel fetched query)
  with sel show ?thesis by (rule conjI)
qed

section \<open>Orders page: bulk status change\<close>

lemma requests_bulkUpdateMutation_mutate:
  "requests (fst (bulkUpdateMutation_mutate api ids s st)) = [PutBulkUpdate ids s]"
  by (cases "api (PutBulkUpdate ids s)") (simp_all add: bulkUpdateMutation_mutate_def requests_def)

text \<open>
  Claim C4. With a non-empty selection, a bulk action with target status \<open>s\<close> sends one
  request, the batch update carrying the selected ids and \<open>s\<close>; the selection is empty
  afterwards when the request resolves and is the same as before when it rejects.
\<close>

theorem bulk_action_one_batch_request:
  assumes "selectedOrders st \<noteq> []"
  shows "requests (fst (handleBulkAction api s st)) = [PutBulkUpdate (selectedOrders st) s]
       \<and> (api (PutBulkUpdate (selectedOrders st) s) = Resolved
            \<longrightarrow> selectedOrders (snd (handleBulkAction api s st)) = [])
       \<and> (api (PutBulkUpdate (selectedOrders st) s) = Rejected
            \<longrightarrow> selectedOrders (snd (handleBulkAction api s st)) = selectedOrders st)"
proof -
  have run: "handleBulkAction api s st = bulkUpdateMutation_mutate api (selectedOrders st) s st"
    using assms by (simp add: handleBulkAction_def)
  show ?thesis
    unfolding run
    by (simp add: requests_bulkUpdateMutation_mutate) (simp add: bulkUpdateMutation_mutate_def)
qed

text \<open>One selected order, against a backend that accepts and one that refuses.\<close>

theorem bulk_action_one_batch_request_witness:
  "selectedOrders bob_selected = [2]
   \<and> requests (fst (handleBulkAction always_resolves ''confirmed'' bob_selected))
       = [PutBulkUpdate [2] ''confirmed'']
   \<and> selectedOrders (snd (handleBulkAction always_resolves ''confirmed'' bob_selected)) = []
   \<and> requests (fst (handleBulkAction always_rejects ''confirmed'' bob_selected))
       = [PutBulkUpdate [2] ''confirmed'']
   \<and> selectedOrders (snd (handleBulkAction always_rejects ''confirmed'' bob_selected)) = [2]"
proof -
  have sel: "selectedOrders bob_selected = [2]"
    by (simp add: bob_selected_def handleSelectOrder_def orders_page_def)
  then have h: "selectedOrders bob_selected \<noteq> []" by simp
  show ?thesis
    using bulk_action_one_batch_request [OF h, of always_resolves "''confirmed''"]
      bulk_action_one_batch_request [OF h, of always_rejects "''confirmed''"]
    by (simp add: sel always_resolves_def always_rejects_def)
qed

text \<open>
  Claim C10. With the empty selection a bulk action does nothing: no request, no other
  effect, and the state of the page (selection, fetched orders, filters, sort) is the
  state before.
\<close>

theorem bulk_action_empty_selection_noop:
  assumes "selectedOrders st = []"
  shows "handleBulkAction api s st = ([], st)"
  using assms by (simp add: handleBulkAction_def)

theorem bulk_action_empty_selection_noop_witness:
  "selectedOrders orders_page = []
   \<and> handleBulkAction always_resolves ''cancelled'' orders_page = ([], orders_page)"
proof -
  have h: "selectedOrders orders_page = []" by (simp add: orders_page_def)
  show ?thesis
    using bulk_action_empty_selection_noop [OF h, of always_resolves "''cancelled''"] h
    by simp
qed

section \<open>Orders page: statistics\<close>

lemma foldl_amounts: "foldl (\<lambda>sum order. sum + amount order) a os = a + sum_list (map amount os)"
  by (induction os arbitrary: a) simp_all

lemma length_filter_status:
  "length (filter (\<lambda>order. status order = s) os) = count_list (map status os) s"
  by (induction os) simp_all

text \<open>
  Claim C5. The statistics are those of the fetched collection: the number of fetched
  orders, the sum of their amounts and the number of fetched orders in each status.
  The search query has no part in them, so changing it changes no statistic.
\<close>

theorem stats_from_fetched_orders:
  "stats (st\<lparr>searchTerm := q\<rparr>) = stats st
   \<and> (\<forall>os. orders st = Some os \<longrightarrow>
         stats st = \<lparr>total = length os, revenue = sum_list (map amount os),
                     pending = count_list (map status os) ''pending'',
                     confirmed = count_list (map status os) ''confirmed'',
                     fulfilled = count_list (map status os) ''fulfilled'',
                     cancelled = count_list (map status os) ''cancelled''\<rparr>)"
  by (simp add: stats_def foldl_amounts length_filter_status)

text \<open>
  Two fetched orders of which the query \<open>CHEF\<close> displays one: the statistics count
  both, with and without the query.
\<close>

theorem stats_from_fetched_orders_witness:
  "orders orders_page = Some [order_ann, order_bob]
   \<and> length (filteredAndSortedOrders latin1_toLowerCase no_dates orders_page) = 1
   \<and> stats (orders_page\<lparr>searchTerm := ''''\<rparr>) = stats orders_page
   \<and> stats orders_page = \<lparr>total = 2, revenue = 15, pending = 1, confirmed = 0,
                            fulfilled = 1, cancelled = 0\<rparr>"
proof -
  have h: "orders orders_page = Some [order_ann, order_bob]"
    by (simp add: orders_page_def)
  have shown: "length (filteredAndSortedOrders latin1_toLowerCase no_dates orders_page) = 1"
    by code_simp
  show ?thesis
    using stats_from_fetched_orders [where st = orders_page and q = "''''"] h shown
    by (simp add: order_ann_def order_bob_def)
qed

section \<open>Orders page: status changes on offer\<close>

text \<open>
  The actions menu of an order, in the card and in the table view, offers the changes
  along the legal edges only: to confirmed or cancelled for a pending order, to
  fulfilled or cancelled for a confirmed one, and none for an order in any other status.
\<close>

lemma menu_actions_legal_edges:
  "menu_actions order =
     (if status order = ''pending'' then [''confirmed'', ''cancelled'']
      else if status order = ''confirmed'' then [''fulfilled'', ''cancelled'']
      else [])"
  by (simp add: menu_actions_def)

text \<open>
  Claim C7 says that the page offers status changes only along the legal edges and never
  one out of a terminal status. The bulk bar breaks it, where the menus keep it: the
  order with id 2 is fulfilled and its actions menu is empty, but its checkbox in the
  table view selects it, the bulk bar then offers "Cancel", and the click sends the
  batch update of order 2 to cancelled.
\<close>

theorem bulk_bar_cancels_fulfilled_order:
  "status order_bob = ''fulfilled''
   \<and> order_id order_bob = 2
   \<and> order_bob \<in> set (filteredAndSortedOrders latin1_toLowerCase no_dates
                         (orders_page\<lparr>searchTerm := '''', viewMode := Table\<rparr>))
   \<and> menu_actions order_bob = []
   \<and> selectedOrders bob_selected = [2]
   \<and> ''cancelled'' \<in> set (bulk_actions bob_selected)
   \<and> requests (fst (handleBulkAction always_resolves ''cancelled'' bob_selected))
       = [PutBulkUpdate [2] ''cancelled'']"
proof -
  have "filteredAndSortedOrders latin1_toLowerCase no_dates (orders_page\<lparr>searchTerm := '''', viewMode := Table\<rparr>)
        = [order_ann, order_bob]"
    by code_simp
  moreover have "requests (fst (handleBulkAction always_resolves ''cancelled'' bob_selected))
       = [PutBulkUpdate [2] ''cancelled'']"
    by code_simp
  moreover have "selectedOrders bob_selected = [2]"
    by (simp add: bob_selected_def handleSelectOrder_def orders_page_def)
  ultimately show ?thesis
    by (simp add: order_bob_def menu_actions_def bulk_actions_def)
qed

section \<open>Analytics page: the trimmed revenue series\<close>

lemma cmp_positive_compare_dates:
  assumes "getTime (date a) = Some x" and "getTime (date b) = Some y"
  shows "cmp_positive (compare_dates getTime a b) \<longleftrightarrow> y < x"
  using assms by (simp add: compare_dates_def number_sub_def cmp_positive_def)

lemma sorted_by_date:
  assumes "\<forall>item \<in> set xs. getTime (date item) \<noteq> None"
  shows "sorted (map (\<lambda>item. the (getTime (date item))) (Array_sort (compare_dates getTime) xs))"
proof -
  let ?A = "{item. getTime (date item) \<noteq> None}"
  let ?R = "\<lambda>a b. the (getTime (date a)) \<le> the (getTime (date b))"
  have "sorted_wrt ?R (Array_sort (compare_dates getTime) xs)"
  proof (rule sorted_wrt_Array_sort_on [where A = ?A])
    show "set xs \<subseteq> ?A" using assms by auto
  qed (auto simp: cmp_positive_compare_dates)
  then show ?thesis by (simp add: sorted_wrt_map)
qed

lemma recentMaxRevenue_Max:
  assumes "recent \<noteq> []"
  shows "recentMaxRevenue recent = Max (day_total ` set recent)"
proof -
  obtain t ts where ts: "map day_total recent = t # ts"
    using assms by (cases recent) simp_all
  have "recentMaxRevenue recent = fold max ts t"
    by (simp add: recentMaxRevenue_def ts)
  also have "\<dots> = Max (set (t # ts))" by (simp only: Max.set_eq_fold)
  also have "set (t # ts) = day_total ` set recent"
    using ts by (metis set_map)
  finally show ?thesis .
qed

text \<open>
  Claim C6. For every revenue series, the data of the chart are the last five (or fewer)
  entries with a strictly positive total, rearranged by the sort on the date: at most
  five bars, each of strictly positive revenue, in chronological order whenever their
  dates parse, and the height of each bar is its total divided by the largest total
  among the bars, times 100.
\<close>

theorem chart_last_five_positive_days:
  "mset (recentRevenueData getTime (Some series))
     = mset (Array_slice_last 5 (filter (\<lambda>item. 0 < day_total item) series))
   \<and> length (recentRevenueData getTime (Some series)) \<le> 5
   \<and> (\<forall>item \<in> set (recentRevenueData getTime (Some series)). 0 < day_total item)
   \<and> ((\<forall>item \<in> set (recentRevenueData getTime (Some series)). getTime (date item) \<noteq> None)
        \<longrightarrow> sorted (map (\<lambda>item. the (getTime (date item)))
                      (recentRevenueData getTime (Some series))))
   \<and> chart_bars getTime (Some series)
       = map (\<lambda>item. (item, day_total item
                / Max (day_total ` set (recentRevenueData getTime (Some series))) * 100))
           (recentRevenueData getTime (Some series))"
proof -
  define positive where "positive = filter (\<lambda>item. 0 < day_total item) series"
  define recent where "recent = recentRevenueData getTime (Some series)"
  let ?last = "drop (length positive - 5) positive"
  have last: "Array_slice_last 5 (filter (\<lambda>item. 0 < day_total item) series) = ?last"
    by (simp add: Array_slice_last_def positive_def)
  have recent: "recent = Array_sort (compare_dates getTime) ?last"
    by (simp add: recent_def recentRevenueData_def Array_slice_last_def positive_def)
  have m: "mset recent = mset ?last"
    by (simp add: recent mset_Array_sort)
  have len: "length recent \<le> 5"
    by (simp add: recent length_Array_sort)
  have set_recent: "set recent = set ?last"
    by (simp add: recent set_Array_sort)
  have pos: "0 < day_total item" if "item \<in> set recent" for item
  proof -
    have "item \<in> set positive" using that set_recent by (auto dest: in_set_dropD)
    then show ?thesis by (simp add: positive_def)
  qed
  have srt: "sorted (map (\<lambda>item. the (getTime (date item))) recent)"
    if "\<forall>item \<in> set recent. getTime (date item) \<noteq> None"
    unfolding recent by (rule sorted_by_date) (use that set_recent in simp)
  have h: "height recent item = day_total item / Max (day_total ` set recent) * 100"
    if "item \<in> set recent" for item
  proof -
    have ne: "recent \<noteq> []" using that by auto
    have "Max (day_total ` set recent) \<in> day_total ` set recent"
      using ne by (intro Max_in) simp_all
    then have "0 < Max (day_total ` set recent)" using pos by auto
    then show ?thesis
      by (simp add: height_def recentMaxRevenue_Max [OF ne])
  qed
  have bars: "chart_bars getTime (Some series)
           = map (\<lambda>item. (item, day_total item / Max (day_total ` set recent) * 100)) recent"
    using h by (simp add: chart_bars_def Let_def recent_def [symmetric])
  show ?thesis
    unfolding last recent_def [symmetric] using m len pos srt bars by blast
qed

text \<open>
  Seven days, one without revenue, not in date order: the last five positive entries
  are charted by date, and the day with 200 sets the scale.
\<close>

theorem chart_last_five_positive_days_witness:
  "map date (recentRevenueData may_days (Some may_revenue))
     = [''2024-05-01'', ''2024-05-03'', ''2024-05-04'', ''2024-05-05'', ''2024-05-06'']
   \<and> sorted (map (\<lambda>item. the (may_days (date item)))
        (recentRevenueData may_days (Some may_revenue)))
   \<and> Max (day_total ` set (recentRevenueData may_days (Some may_revenue))) = 200
   \<and> map snd (chart_bars may_days (Some may_revenue)) = [5, 15, 20, 100, 30]"
proof -
  let ?recent = "recentRevenueData may_days (Some may_revenue)"
  have recent: "?recent =
      [\<lparr>date = ''2024-05-01'', day_total = 10\<rparr>, \<lparr>date = ''2024-05-03'', day_total = 30\<rparr>,
       \<lparr>date = ''2024-05-04'', day_total = 40\<rparr>, \<lparr>date = ''2024-05-05'', day_total = 200\<rparr>,
       \<lparr>date = ''2024-05-06'', day_total = 60\<rparr>]"
    by code_simp
  have parsed: "\<forall>item \<in> set ?recent. may_days (date item) \<noteq> None"
    unfolding recent by (simp add: may_days_def)
  have mx: "Max (day_total ` set ?recent) = 200"
    unfolding recent by simp
  have dates: "map date ?recent
      = [''2024-05-01'', ''2024-05-03'', ''2024-05-04'', ''2024-05-05'', ''2024-05-06'']"
    unfolding recent by simp
  have srt: "sorted (map (\<lambda>item. the (may_days (date item))) ?recent)"
    using chart_last_five_positive_days [of may_days may_revenue] parsed by blast
  have "chart_bars may_days (Some may_revenue)
       = map (\<lambda>item. (item, day_total item / Max (day_total ` set ?recent) * 100)) ?recent"
    using chart_last_five_positive_days [of may_days may_revenue] by blast
  then have bars: "map snd (chart_bars may_days (Some may_revenue)) = [5, 15, 20, 100, 30]"
    unfolding mx by (simp add: recent)
  show ?thesis using dates srt mx bars by blast
qed

section \<open>Property and upsell forms: the image URL of the payload\<close>

text \<open>
  Claim C8. When a file was chosen and its upload answers with a URL, a submission
  uploads the file first and then sends the create or update request whose payload is
  the form data with the image URL replaced by the returned one. When no file was
  chosen, the only effect is the create or update request with the form data as they
  are, image URL included. This holds for the property form and for the upsell form.
\<close>

theorem submit_image_url:
  "(upload img = UploadResolved url \<longrightarrow>
      PropertyForm_onSubmit upload route_id (Some img) pdata
        = [PostUploadImage img, submit_mutation route_id (pdata\<lparr>hero_image_url := Some url\<rparr>)]
      \<and> UpsellForm_onSubmit upload route_id (Some img) udata
        = [PostUploadImage img, submit_mutation route_id (udata\<lparr>image_url := Some url\<rparr>)])
   \<and> PropertyForm_onSubmit upload route_id None pdata = [submit_mutation route_id pdata]
   \<and> UpsellForm_onSubmit upload route_id None udata = [submit_mutation route_id udata]"
  by (simp add: PropertyForm_onSubmit_def UpsellForm_onSubmit_def)

text \<open>
  Editing property 12 with a new photo, and creating an upsell without one (its image
  URL is the empty string of the form defaults).
\<close>

theorem submit_image_url_witness:
  "cdn_upload villa_photo = UploadResolved ''https://cdn.example/villa.png''
   \<and> PropertyForm_onSubmit cdn_upload (Some ''12'') (Some villa_photo) villa_form
       = [PostUploadImage villa_photo,
          PutUpdate ''12'' (villa_form\<lparr>hero_image_url := Some ''https://cdn.example/villa.png''\<rparr>)]
   \<and> UpsellForm_onSubmit cdn_upload None None chef_form = [PostCreate chef_form]
   \<and> image_url chef_form = Some ''''"
proof -
  have up: "cdn_upload villa_photo = UploadResolved ''https://cdn.example/villa.png''"
    by (simp add: cdn_upload_def villa_photo_def)
  show ?thesis
    using submit_image_url [where upload = cdn_upload and img = villa_photo
        and url = "''https://cdn.example/villa.png''" and route_id = "Some ''12''"
        and pdata = villa_form and udata = chef_form]
      submit_image_url [where upload = cdn_upload and img = villa_photo
        and url = "''https://cdn.example/villa.png''" and route_id = None
        and pdata = villa_form and udata = chef_form]
    by (simp add: up submit_mutation_def chef_form_def)
qed

section \<open>Session: a rejected or accepted token\<close>

text \<open>
  Claim C9. With a stored token (a non-empty string; the empty string is falsy and is
  not checked at all), session initialisation asks "who am I". When that request
  fails, the token is removed from persistent storage and the token in memory is null;
  the only effect is the request itself, so nothing is thrown or shown. When it
  succeeds, the returned user is the current user. In both cases loading ends.
\<close>

theorem initAuth_clears_rejected_token:
  assumes "token st = Some t" and "t \<noteq> []"
  shows "initAuth MeRejected st
           = ([GetMe], st\<lparr>localStorage := (localStorage st)(''token'' := None),
                         token := None, isLoading := False\<rparr>)
       \<and> localStorage (snd (initAuth MeRejected st)) ''token'' = None
       \<and> token (snd (initAuth MeRejected st)) = None
       \<and> initAuth (MeResolved u) st = ([GetMe], st\<lparr>user := Some u, isLoading := False\<rparr>)
       \<and> user (snd (initAuth (MeResolved u) st)) = Some u"
  using assms by (simp add: initAuth_def)

theorem initAuth_clears_rejected_token_witness:
  "token stored_session = Some ''abc123''
   \<and> localStorage stored_session ''token'' = Some ''abc123''
   \<and> fst (initAuth MeRejected stored_session) = [GetMe]
   \<and> localStorage (snd (initAuth MeRejected stored_session)) ''token'' = None
   \<and> token (snd (initAuth MeRejected stored_session)) = None
   \<and> user (snd (initAuth MeRejected stored_session)) = None
   \<and> user (snd (initAuth (MeResolved ann_user) stored_session)) = Some ann_user
   \<and> token (snd (initAuth (MeResolved ann_user) stored_session)) = Some ''abc123''"
proof -
  have h: "token stored_session = Some ''abc123''"
    by (simp add: stored_session_def AuthProvider_initial_def)
  have ne: "''abc123'' \<noteq> []" by simp
  show ?thesis
    using initAuth_clears_rejected_token [OF h ne, of ann_user]
    by (simp add: stored_session_def AuthProvider_initial_def)
qed

end
